theory Spec2Isabelle
  imports Complex_Main
begin

section \<open>The numbers of the program\<close>

text \<open>
  Every quantity of \<^verbatim>\<open>src/utils/poolCalculations.ts\<close> is a JavaScript \<^verbatim>\<open>number\<close>.
  The model keeps the special values of that type, since the program relies on them
  (an unguarded division by zero is left to produce \<^verbatim>\<open>NaN\<close> or an infinity), and
  takes the finite values to be exact rationals: a finite result of \<open>+\<close>, \<open>-\<close>,
  \<open>*\<close> and \<open>/\<close> is the mathematical result of the operation. The statements about
  prices, swap output, funding and profit and loss are algebraic and are made over
  these exact values; the rounding of binary64 enters only where decimal digits are
  printed, in the section on formatting. The two zeros of binary64 are one value
  \<open>Fin 0\<close>; a quotient by zero takes the sign of its dividend, which is what division
  by \<^verbatim>\<open>+0\<close> does.
\<close>

datatype jsnum = Fin rat | PInf | NInf | NaN

fun is_finite :: "jsnum \<Rightarrow> bool" where
  "is_finite (Fin a) = True"
| "is_finite PInf = False"
| "is_finite NInf = False"
| "is_finite NaN = False"

instantiation jsnum :: "{uminus, plus, minus, times, inverse}"
begin

fun uminus_jsnum :: "jsnum \<Rightarrow> jsnum" where
  "uminus_jsnum (Fin a) = Fin (- a)"
| "uminus_jsnum PInf = NInf"
| "uminus_jsnum NInf = PInf"
| "uminus_jsnum NaN = NaN"

fun plus_jsnum :: "jsnum \<Rightarrow> jsnum \<Rightarrow> jsnum" where
  "plus_jsnum (Fin a) (Fin b) = Fin (a + b)"
| "plus_jsnum (Fin a) PInf = PInf"
| "plus_jsnum (Fin a) NInf = NInf"
| "plus_jsnum PInf (Fin b) = PInf"
| "plus_jsnum NInf (Fin b) = NInf"
| "plus_jsnum PInf PInf = PInf"
| "plus_jsnum NInf NInf = NInf"
| "plus_jsnum PInf NInf = NaN"
| "plus_jsnum NInf PInf = NaN"
| "plus_jsnum NaN y = NaN"
| "plus_jsnum x NaN = NaN"

definition minus_jsnum :: "jsnum \<Rightarrow> jsnum \<Rightarrow> jsnum" where
  "minus_jsnum x y = x + (- y)"

fun times_jsnum :: "jsnum \<Rightarrow> jsnum \<Rightarrow> jsnum" where
  "times_jsnum (Fin a) (Fin b) = Fin (a * b)"
| "times_jsnum (Fin a) PInf = (if a = 0 then NaN else if 0 < a then PInf else NInf)"
| "times_jsnum (Fin a) NInf = (if a = 0 then NaN else if 0 < a then NInf else PInf)"
| "times_jsnum PInf (Fin b) = (if b = 0 then NaN else if 0 < b then PInf else NInf)"
| "times_jsnum NInf (Fin b) = (if b = 0 then NaN else if 0 < b then NInf else PInf)"
| "times_jsnum PInf PInf = PInf"
| "times_jsnum NInf NInf = PInf"
| "times_jsnum PInf NInf = NInf"
| "times_jsnum NInf PInf = NInf"
| "times_jsnum NaN y = NaN"
| "times_jsnum x NaN = NaN"

fun divide_jsnum :: "jsnum \<Rightarrow> jsnum \<Rightarrow> jsnum" where
  "divide_jsnum (Fin a) (Fin b) =
     (if b = 0 then (if a = 0 then NaN else if 0 < a then PInf else NInf)
      else Fin (a / b))"
| "divide_jsnum (Fin a) PInf = Fin 0"
| "divide_jsnum (Fin a) NInf = Fin 0"
| "divide_jsnum PInf (Fin b) = (if 0 \<le> b then PInf else NInf)"
| "divide_jsnum NInf (Fin b) = (if 0 \<le> b then NInf else PInf)"
| "divide_jsnum PInf PInf = NaN"
| "divide_jsnum NInf NInf = NaN"
| "divide_jsnum PInf NInf = NaN"
| "divide_jsnum NInf PInf = NaN"
| "divide_jsnum NaN y = NaN"
| "divide_jsnum x NaN = NaN"

definition inverse_jsnum :: "jsnum \<Rightarrow> jsnum" where
  "inverse_jsnum x = divide (Fin 1) x"

instance ..

end

text \<open>Strict equality \<^verbatim>\<open>===\<close> of two numbers: \<^verbatim>\<open>NaN\<close> equals nothing, itself included.\<close>

fun js_seq :: "jsnum \<Rightarrow> jsnum \<Rightarrow> bool" where
  "js_seq NaN y = False"
| "js_seq x NaN = False"
| "js_seq x y = (x = y)"

text \<open>The comparisons \<^verbatim>\<open>>=\<close> and \<^verbatim>\<open><\<close>: false as soon as one side is \<^verbatim>\<open>NaN\<close>.\<close>

fun js_ge :: "jsnum \<Rightarrow> jsnum \<Rightarrow> bool" where
  "js_ge (Fin a) (Fin b) = (b \<le> a)"
| "js_ge NaN y = False"
| "js_ge x NaN = False"
| "js_ge PInf y = True"
| "js_ge x NInf = True"
| "js_ge x PInf = False"
| "js_ge NInf y = False"


text \<open>\<^verbatim>\<open>Math.pow(10, n)\<close> for a literal natural \<open>n\<close>, and \<^verbatim>\<open>Math.pow(x, 2)\<close>.\<close>

definition Math_pow10 :: "nat \<Rightarrow> jsnum" where
  "Math_pow10 n = Fin (10 ^ n)"

definition Math_pow2 :: "jsnum \<Rightarrow> jsnum" where
  "Math_pow2 x = x * x"

section \<open>Pool reserves and constants\<close>

record PoolReserves =
  solReserve :: jsnum
  effectiveSolReserve :: jsnum
  tokenReserve :: jsnum
  effectiveTokenReserve :: jsnum
  totalDeltaKLongs :: jsnum
  totalDeltaKShorts :: jsnum
  fundingConstantC :: jsnum

definition SOL_DECIMALS :: nat where
  "SOL_DECIMALS = 9"

definition TOKEN_Y_DECIMALS :: nat where
  "TOKEN_Y_DECIMALS = 6"

definition TOKEN_Y_SUPPLY :: jsnum where
  "TOKEN_Y_SUPPLY = Fin 1000000000"

text \<open>
  Modelled from the spec: \<^verbatim>\<open>LAMPORTS_PER_SOL\<close> is imported from the package
  \<^verbatim>\<open>@solana/web3.js\<close>, which is not part of the repository. The spec fixes the
  scale of SOL amounts at \<open>10^9\<close> base units.
\<close>

definition LAMPORTS_PER_SOL :: jsnum where
  "LAMPORTS_PER_SOL = Fin 1000000000"

text \<open>
  \<^verbatim>\<open>getPoolReserves\<close> fills each field with \<^verbatim>\<open>Number(...)\<close> of an unsigned
  on-chain integer, and the data model of the spec states the invariant: the fields
  of a snapshot are finite and not negative.
\<close>

definition nonneg_fin :: "jsnum \<Rightarrow> bool" where
  "nonneg_fin x = (case x of Fin a \<Rightarrow> 0 \<le> a | _ \<Rightarrow> False)"


definition nonzero_fin :: "jsnum \<Rightarrow> bool" where
  "nonzero_fin x = (case x of Fin a \<Rightarrow> a \<noteq> 0 | _ \<Rightarrow> False)"

definition valid_reserves :: "PoolReserves \<Rightarrow> bool" where
  "valid_reserves r \<longleftrightarrow>
     nonneg_fin (solReserve r) \<and> nonneg_fin (effectiveSolReserve r) \<and>
     nonneg_fin (tokenReserve r) \<and> nonneg_fin (effectiveTokenReserve r) \<and>
     nonneg_fin (totalDeltaKLongs r) \<and> nonneg_fin (totalDeltaKShorts r) \<and>
     nonneg_fin (fundingConstantC r)"

section \<open>Prices\<close>

definition calculatePoolPrice :: "PoolReserves \<Rightarrow> jsnum" where
  "calculatePoolPrice reserves =
     (let effectiveSol = effectiveSolReserve reserves / LAMPORTS_PER_SOL;
          effectiveToken = effectiveTokenReserve reserves / Math_pow10 TOKEN_Y_DECIMALS
      in effectiveSol / effectiveToken)"

definition calculateRealReservesPrice :: "PoolReserves \<Rightarrow> jsnum" where
  "calculateRealReservesPrice reserves =
     (let realSol = solReserve reserves / LAMPORTS_PER_SOL;
          realToken = tokenReserve reserves / Math_pow10 TOKEN_Y_DECIMALS
      in if js_seq realToken (Fin 0) then Fin 0 else realSol / realToken)"

definition calculateRawMarketCap :: "PoolReserves \<Rightarrow> jsnum \<Rightarrow> jsnum" where
  "calculateRawMarketCap reserves solPrice =
     (let tokenYPrice = calculatePoolPrice reserves
      in TOKEN_Y_SUPPLY * tokenYPrice * solPrice)"

definition calculateRawLiquidity :: "PoolReserves \<Rightarrow> jsnum \<Rightarrow> jsnum" where
  "calculateRawLiquidity reserves solPrice =
     (let effectiveSol = effectiveSolReserve reserves / LAMPORTS_PER_SOL
      in effectiveSol * Fin 2 * solPrice)"

section \<open>Swap output\<close>

text \<open>
  The three local constants of \<^verbatim>\<open>calculateExpectedOutput\<close> are definitions of their
  own, so that the raw output can be named before its conversion to human units.
\<close>

definition rawInputAmount :: "jsnum \<Rightarrow> bool \<Rightarrow> jsnum" where
  "rawInputAmount inputAmount isSolToTokenY =
     (if isSolToTokenY then inputAmount * LAMPORTS_PER_SOL
      else inputAmount * Math_pow10 TOKEN_Y_DECIMALS)"

definition swap_x :: "PoolReserves \<Rightarrow> bool \<Rightarrow> jsnum" where
  "swap_x reserves isSolToTokenY =
     (if isSolToTokenY then effectiveSolReserve reserves else effectiveTokenReserve reserves)"

definition swap_y :: "PoolReserves \<Rightarrow> bool \<Rightarrow> jsnum" where
  "swap_y reserves isSolToTokenY =
     (if isSolToTokenY then effectiveTokenReserve reserves else effectiveSolReserve reserves)"

definition rawOutputAmount :: "PoolReserves \<Rightarrow> jsnum \<Rightarrow> bool \<Rightarrow> jsnum" where
  "rawOutputAmount reserves inputAmount isSolToTokenY =
     (let x = swap_x reserves isSolToTokenY;
          y = swap_y reserves isSolToTokenY
      in (y * rawInputAmount inputAmount isSolToTokenY)
           / (x + rawInputAmount inputAmount isSolToTokenY))"

definition calculateExpectedOutput :: "PoolReserves \<Rightarrow> jsnum \<Rightarrow> bool \<Rightarrow> jsnum" where
  "calculateExpectedOutput reserves inputAmount isSolToTokenY =
     (if isSolToTokenY
      then rawOutputAmount reserves inputAmount isSolToTokenY / Math_pow10 TOKEN_Y_DECIMALS
      else rawOutputAmount reserves inputAmount isSolToTokenY / LAMPORTS_PER_SOL)"

section \<open>Funding rate\<close>

record FundingRate =
  perSecond :: jsnum
  perDay :: jsnum
  perAnnum :: jsnum

definition calculateFundingRate :: "PoolReserves \<Rightarrow> FundingRate" where
  "calculateFundingRate reserves =
     (let k_e = effectiveSolReserve reserves * effectiveTokenReserve reserves;
          totalDeltaK = totalDeltaKLongs reserves + totalDeltaKShorts reserves
      in if js_seq totalDeltaK (Fin 0) \<or> js_seq k_e (Fin 0)
         then \<lparr>perSecond = Fin 0, perDay = Fin 0, perAnnum = Fin 0\<rparr>
         else
           (let leverageRatio = totalDeltaK / k_e;
                fundingRatePerSecond = fundingConstantC reserves * Math_pow2 leverageRatio;
                perSecond = fundingRatePerSecond * Fin 100;
                perDay = perSecond * Fin 86400;
                perAnnum = perDay * Fin 365
            in \<lparr>perSecond = perSecond, perDay = perDay, perAnnum = perAnnum\<rparr>))"

section \<open>Position profit and loss\<close>

record Position =
  isLong :: bool
  rawSize :: jsnum
  rawCollateral :: jsnum
  leverage :: jsnum

text \<open>
  The two branches of \<^verbatim>\<open>calculatePositionPnL\<close> assign \<^verbatim>\<open>outputUsd\<close> and
  \<^verbatim>\<open>collateralUsd\<close>; \<open>pnl_legs\<close> returns that pair, and the function ends with the
  guard and the quotient.
\<close>

definition pnl_legs :: "Position \<Rightarrow> PoolReserves \<Rightarrow> jsnum \<Rightarrow> jsnum \<times> jsnum" where
  "pnl_legs pos reserves solPrice =
     (if isLong pos then
        (let sizeToken = rawSize pos / Math_pow10 TOKEN_Y_DECIMALS;
             expectedSol = calculateExpectedOutput reserves sizeToken False;
             borrowedSol = (rawCollateral pos / LAMPORTS_PER_SOL) * (leverage pos - Fin 1);
             output = expectedSol - borrowedSol;
             outputUsd = output * solPrice;
             collateralUsd = (rawCollateral pos / LAMPORTS_PER_SOL) * solPrice
         in (outputUsd, collateralUsd))
      else
        (let sizeSol = rawSize pos / LAMPORTS_PER_SOL;
             expectedToken = calculateExpectedOutput reserves sizeSol True;
             borrowedToken =
               (rawCollateral pos / Math_pow10 TOKEN_Y_DECIMALS) * (leverage pos - Fin 1);
             output = expectedToken - borrowedToken;
             outputUsd = output * calculatePoolPrice reserves * solPrice;
             collateralUsd =
               (rawCollateral pos / Math_pow10 TOKEN_Y_DECIMALS)
                 * calculatePoolPrice reserves * solPrice
         in (outputUsd, collateralUsd)))"

definition pnl_collateralUsd :: "Position \<Rightarrow> PoolReserves \<Rightarrow> jsnum \<Rightarrow> jsnum" where
  "pnl_collateralUsd pos reserves solPrice = snd (pnl_legs pos reserves solPrice)"

definition calculatePositionPnL :: "Position \<Rightarrow> PoolReserves \<Rightarrow> jsnum \<Rightarrow> jsnum" where
  "calculatePositionPnL pos reserves solPrice =
     (case pnl_legs pos reserves solPrice of (outputUsd, collateralUsd) \<Rightarrow>
        if js_seq collateralUsd (Fin 0) then Fin 0
        else ((outputUsd - collateralUsd) / collateralUsd) * Fin 100)"

section \<open>Formatting\<close>

text \<open>
  \<^verbatim>\<open>toFixed(2)\<close> prints the decimal digits of the exact value of a binary64 number,
  so a digit of the output can turn on the last bit of the quotient \<^verbatim>\<open>value / 1e3\<close>.
  In this section the quotient is therefore rounded as binary64 rounds it: \<open>round64\<close>
  is rounding to nearest, ties to even, on a significand of 53 bits, with gradual
  underflow below \<open>2^-1022\<close> and overflow to an infinity when the rounded magnitude
  reaches \<open>2^1024\<close>, that is, when its binary exponent reaches \<open>1024\<close>.

  \<open>bit_length n\<close> is the number of binary digits of a positive \<open>n\<close>, and
  \<open>binary_exponent q\<close> the \<open>e\<close> with \<open>2^e \<le> q < 2^(e + 1)\<close> for a positive \<open>q\<close>.
\<close>

function bit_length :: "int \<Rightarrow> int" where
  "bit_length n = (if n \<le> 0 then 0 else 1 + bit_length (n div 2))"
  by pat_completeness auto

termination bit_length
  by (relation "measure nat") auto

declare bit_length.simps [simp del]

definition pow2 :: "int \<Rightarrow> rat" where
  "pow2 e = (if 0 \<le> e then 2 ^ nat e else 1 / 2 ^ nat (- e))"

definition binary_exponent :: "rat \<Rightarrow> int" where
  "binary_exponent q =
     (if 1 \<le> q then bit_length \<lfloor>q\<rfloor> - 1
      else - bit_length (\<lceil>1 / q\<rceil> - 1))"

definition round_half_even :: "rat \<Rightarrow> int" where
  "round_half_even m =
     (let f = \<lfloor>m\<rfloor>; r = m - of_int f
      in if r < 1 / 2 then f else if 1 / 2 < r then f + 1
         else if even f then f else f + 1)"

definition round64 :: "rat \<Rightarrow> jsnum" where
  "round64 q =
     (if q = 0 then Fin 0
      else
        (let a = \<bar>q\<bar>;
             e = max (binary_exponent a) (- 1022);
             u = pow2 (e - 52);
             m = of_int (round_half_even (a / u)) * u
         in if 1024 \<le> binary_exponent m then (if 0 < q then PInf else NInf)
            else Fin (if 0 < q then m else - m)))"

fun fl :: "jsnum \<Rightarrow> jsnum" where
  "fl (Fin q) = round64 q"
| "fl PInf = PInf"
| "fl NInf = NInf"
| "fl NaN = NaN"

text \<open>
  \<^verbatim>\<open>Number.prototype.toFixed\<close> with two fraction digits, as ECMAScript defines it: the
  sign is taken off, \<open>n\<close> is the integer for which \<open>n / 100 - x\<close> is closest to zero,
  the larger one of two, and its decimal digits, padded with zeros on the left to
  three at least, get the point before the last two. From \<open>10^21\<close> on the result is
  the text of \<^verbatim>\<open>Number::toString\<close>, in exponent notation, which is not modelled:
  the parameter \<open>sci\<close> stands for it.
\<close>

definition digit_char :: "int \<Rightarrow> char" where
  "digit_char d = ''0123456789'' ! nat d"

function decimal_digits :: "int \<Rightarrow> string" where
  "decimal_digits n =
     (if n < 10 then [digit_char n]
      else decimal_digits (n div 10) @ [digit_char (n mod 10)])"
  by pat_completeness auto

termination decimal_digits
  by (relation "measure nat") auto

declare decimal_digits.simps [simp del]

definition fixed2_digits :: "int \<Rightarrow> string" where
  "fixed2_digits n =
     (let m = (if n = 0 then ''0'' else decimal_digits n);
          m = (if length m \<le> 2 then replicate (3 - length m) CHR ''0'' @ m else m);
          k = length m
      in take (k - 2) m @ ''.'' @ drop (k - 2) m)"

fun toFixed2 :: "(rat \<Rightarrow> string) \<Rightarrow> jsnum \<Rightarrow> string" where
  "toFixed2 sci NaN = ''NaN''"
| "toFixed2 sci PInf = ''Infinity''"
| "toFixed2 sci NInf = ''-Infinity''"
| "toFixed2 sci (Fin x) =
     (if x < 0 then ''-'' else [])
       @ (if 10 ^ 21 \<le> \<bar>x\<bar> then sci \<bar>x\<bar>
          else fixed2_digits \<lfloor>\<bar>x\<bar> * 100 + 1 / 2\<rfloor>)"

definition formatNumber :: "(rat \<Rightarrow> string) \<Rightarrow> jsnum \<Rightarrow> string" where
  "formatNumber sci v =
     (if js_ge v (Fin (10 ^ 9)) then ''$'' @ toFixed2 sci (fl (v / Fin (10 ^ 9))) @ ''B''
      else if js_ge v (Fin (10 ^ 6)) then ''$'' @ toFixed2 sci (fl (v / Fin (10 ^ 6))) @ ''M''
      else if js_ge v (Fin (10 ^ 3)) then ''$'' @ toFixed2 sci (fl (v / Fin (10 ^ 3))) @ ''K''
      else ''$'' @ toFixed2 sci v)"

definition formatTokenAmount :: "(rat \<Rightarrow> string) \<Rightarrow> jsnum \<Rightarrow> string" where
  "formatTokenAmount sci v =
     (if js_ge v (Fin (10 ^ 9)) then toFixed2 sci (fl (v / Fin (10 ^ 9))) @ ''B''
      else if js_ge v (Fin (10 ^ 6)) then toFixed2 sci (fl (v / Fin (10 ^ 6))) @ ''M''
      else if js_ge v (Fin (10 ^ 3)) then toFixed2 sci (fl (v / Fin (10 ^ 3))) @ ''K''
      else toFixed2 sci v)"

text \<open>
  For the statements about formatting, in the words of the spec: rounding half away
  from zero at two fraction digits, as a number of hundredths; the two-decimal text
  of a number of hundredths that is not negative; the suffix of the band that a
  value falls in, and the number printed in that band.
\<close>

definition half_away_hundredths :: "rat \<Rightarrow> int" where
  "half_away_hundredths q =
     (if q < 0 then - \<lfloor>- q * 100 + 1 / 2\<rfloor> else \<lfloor>q * 100 + 1 / 2\<rfloor>)"

definition show_hundredths :: "int \<Rightarrow> string" where
  "show_hundredths n =
     decimal_digits (n div 100) @ ''.'' @ [digit_char (n div 10 mod 10), digit_char (n mod 10)]"

definition band_quotient :: "rat \<Rightarrow> jsnum" where
  "band_quotient v =
     (if 10 ^ 9 \<le> v then fl (Fin v / Fin (10 ^ 9))
      else if 10 ^ 6 \<le> v then fl (Fin v / Fin (10 ^ 6))
      else if 10 ^ 3 \<le> v then fl (Fin v / Fin (10 ^ 3))
      else Fin v)"

definition band_suffix :: "rat \<Rightarrow> string" where
  "band_suffix v =
     (if 10 ^ 9 \<le> v then ''B'' else if 10 ^ 6 \<le> v then ''M''
      else if 10 ^ 3 \<le> v then ''K'' else [])"

section \<open>Facts about the numbers\<close>

lemma js_seq_zero_iff: "js_seq x (Fin 0) \<longleftrightarrow> x = Fin 0"
  by (cases x) simp_all

lemma Math_pow2_Fin: "Math_pow2 (Fin a) = Fin (a ^ 2)"
  by (simp add: Math_pow2_def power2_eq_square)

lemma nonneg_finE:
  assumes "nonneg_fin x"
  obtains a where "x = Fin a" and "0 \<le> a"
  using assms by (cases x) (simp_all add: nonneg_fin_def)


lemma nonzero_finE:
  assumes "nonzero_fin x"
  obtains a where "x = Fin a" and "a \<noteq> 0"
  using assms by (cases x) (simp_all add: nonzero_fin_def)

section \<open>Swap output: the formula\<close>

lemma expected_output_formula_aux:
  "calculateExpectedOutput r dx d =
     (if d then ((effectiveTokenReserve r * (dx * Fin (10 ^ 9)))
                  / (effectiveSolReserve r + dx * Fin (10 ^ 9))) / Fin (10 ^ 6)
      else ((effectiveSolReserve r * (dx * Fin (10 ^ 6)))
                  / (effectiveTokenReserve r + dx * Fin (10 ^ 6))) / Fin (10 ^ 9))"
  by (simp add: calculateExpectedOutput_def rawOutputAmount_def rawInputAmount_def
      swap_x_def swap_y_def LAMPORTS_PER_SOL_def Math_pow10_def TOKEN_Y_DECIMALS_def)

text \<open>
  C1. In each direction \<^verbatim>\<open>calculateExpectedOutput\<close> scales the input by the decimal
  scale of the input side (\<open>10^9\<close> for SOL, \<open>10^6\<close> for the token), takes \<open>x\<close> the
  effective reserve of the input asset and \<open>y\<close> that of the output asset, forms
  \<open>(y * dx_raw) / (x + dx_raw)\<close> and divides by the decimal scale of the output side.
\<close>

theorem expected_output_formula:
  "calculateExpectedOutput r dx True =
     ((effectiveTokenReserve r * (dx * Fin (10 ^ 9)))
        / (effectiveSolReserve r + dx * Fin (10 ^ 9))) / Fin (10 ^ 6)
   \<and> calculateExpectedOutput r dx False =
     ((effectiveSolReserve r * (dx * Fin (10 ^ 6)))
        / (effectiveTokenReserve r + dx * Fin (10 ^ 6))) / Fin (10 ^ 9)"
  by (simp add: expected_output_formula_aux)

section \<open>Prices at a zero token reserve\<close>

text \<open>
  C2. With \<open>tokenReserve = 0\<close> the real price is exactly \<open>0\<close>, whatever
  \<open>solReserve\<close> is. With \<open>effectiveTokenReserve = 0\<close> the effective price is the
  unguarded quotient by zero: it is not a finite number, and in particular it is not
  \<open>0\<close>; it is \<^verbatim>\<open>NaN\<close> or \<^verbatim>\<open>Infinity\<close> when \<open>effectiveSolReserve\<close> is finite and not
  negative.
\<close>

theorem price_zero_token_asymmetry:
  "(tokenReserve r = Fin 0 \<longrightarrow> calculateRealReservesPrice r = Fin 0)
   \<and> (effectiveTokenReserve r = Fin 0 \<longrightarrow>
        calculatePoolPrice r = (effectiveSolReserve r / Fin (10 ^ 9)) / Fin 0
        \<and> \<not> is_finite (calculatePoolPrice r)
        \<and> calculatePoolPrice r \<noteq> Fin 0
        \<and> (nonneg_fin (effectiveSolReserve r)
             \<longrightarrow> calculatePoolPrice r = NaN \<or> calculatePoolPrice r = PInf))"
proof (intro conjI impI)
  assume "tokenReserve r = Fin 0"
  then show "calculateRealReservesPrice r = Fin 0"
    by (simp add: calculateRealReservesPrice_def Math_pow10_def)
next
  assume z: "effectiveTokenReserve r = Fin 0"
  then show e: "calculatePoolPrice r = (effectiveSolReserve r / Fin (10 ^ 9)) / Fin 0"
    by (simp add: calculatePoolPrice_def Math_pow10_def LAMPORTS_PER_SOL_def)
  show "\<not> is_finite (calculatePoolPrice r)"
    unfolding e by (cases "effectiveSolReserve r") simp_all
  show "calculatePoolPrice r \<noteq> Fin 0"
    unfolding e by (cases "effectiveSolReserve r") simp_all
  show "calculatePoolPrice r = NaN \<or> calculatePoolPrice r = PInf"
    if "nonneg_fin (effectiveSolReserve r)"
    using that unfolding e by (cases "effectiveSolReserve r") (auto simp add: nonneg_fin_def)
qed

theorem price_zero_token_asymmetry_witness:
  "calculateRealReservesPrice
     \<lparr>solReserve = Fin 5, effectiveSolReserve = Fin 7, tokenReserve = Fin 0,
      effectiveTokenReserve = Fin 0, totalDeltaKLongs = Fin 0, totalDeltaKShorts = Fin 0,
      fundingConstantC = Fin 1\<rparr> = Fin 0
   \<and> calculatePoolPrice
     \<lparr>solReserve = Fin 5, effectiveSolReserve = Fin 7, tokenReserve = Fin 0,
      effectiveTokenReserve = Fin 0, totalDeltaKLongs = Fin 0, totalDeltaKShorts = Fin 0,
      fundingConstantC = Fin 1\<rparr> = PInf"
  using price_zero_token_asymmetry [of
     "\<lparr>solReserve = Fin 5, effectiveSolReserve = Fin 7, tokenReserve = Fin 0,
      effectiveTokenReserve = Fin 0, totalDeltaKLongs = Fin 0, totalDeltaKShorts = Fin 0,
      fundingConstantC = Fin 1\<rparr>"]
  by simp

section \<open>Swap output: the constant product\<close>






section \<open>Swap output: monotone and bounded\<close>





section \<open>Funding rate\<close>

text \<open>
  C5. When \<open>totalDeltaKLongs + totalDeltaKShorts\<close> is \<open>0\<close>, or
  \<open>effectiveSolReserve * effectiveTokenReserve\<close> is \<open>0\<close>, the three rates are exactly
  \<open>0\<close>; so they are for \<open>effectiveSolReserve = 1000 * 10^9\<close>,
  \<open>effectiveTokenReserve = 1000000 * 10^6\<close> and no open position, whatever the other
  fields are.
\<close>

theorem funding_rate_short_circuit:
  "(totalDeltaKLongs r + totalDeltaKShorts r = Fin 0
      \<or> effectiveSolReserve r * effectiveTokenReserve r = Fin 0
     \<longrightarrow> calculateFundingRate r = \<lparr>perSecond = Fin 0, perDay = Fin 0, perAnnum = Fin 0\<rparr>)
   \<and> calculateFundingRate
        \<lparr>solReserve = sr, effectiveSolReserve = Fin (1000 * 10 ^ 9), tokenReserve = tr,
         effectiveTokenReserve = Fin (1000000 * 10 ^ 6), totalDeltaKLongs = Fin 0,
         totalDeltaKShorts = Fin 0, fundingConstantC = c\<rparr>
       = \<lparr>perSecond = Fin 0, perDay = Fin 0, perAnnum = Fin 0\<rparr>"
  by (auto simp add: calculateFundingRate_def Let_def js_seq_zero_iff)

theorem funding_rate_short_circuit_witness:
  "calculateFundingRate
     \<lparr>solReserve = Fin 1, effectiveSolReserve = Fin 0, tokenReserve = Fin 1,
      effectiveTokenReserve = Fin 3, totalDeltaKLongs = Fin 2, totalDeltaKShorts = Fin 5,
      fundingConstantC = Fin 1\<rparr>
   = \<lparr>perSecond = Fin 0, perDay = Fin 0, perAnnum = Fin 0\<rparr>"
  using funding_rate_short_circuit [of
     "\<lparr>solReserve = Fin 1, effectiveSolReserve = Fin 0, tokenReserve = Fin 1,
      effectiveTokenReserve = Fin 3, totalDeltaKLongs = Fin 2, totalDeltaKShorts = Fin 5,
      fundingConstantC = Fin 1\<rparr>"]
  by simp

text \<open>
  C6, as the claim states it, fails: with every field \<open>1\<close> the rate per second is
  \<open>400\<close>, and with \<open>totalDeltaKLongs\<close> doubled it is \<open>900\<close>, not \<open>1600\<close>. The shorts
  stay in the sum \<open>totalDeltaK\<close>, which therefore does not double.
\<close>

theorem funding_rate_doubling_counterexample:
  "perSecond (calculateFundingRate
      \<lparr>solReserve = Fin 1, effectiveSolReserve = Fin 1, tokenReserve = Fin 1,
       effectiveTokenReserve = Fin 1, totalDeltaKLongs = Fin 1, totalDeltaKShorts = Fin 1,
       fundingConstantC = Fin 1\<rparr>) = Fin 400
   \<and> perSecond (calculateFundingRate
      \<lparr>solReserve = Fin 1, effectiveSolReserve = Fin 1, tokenReserve = Fin 1,
       effectiveTokenReserve = Fin 1, totalDeltaKLongs = Fin 2 * Fin 1,
       totalDeltaKShorts = Fin 1, fundingConstantC = Fin 1\<rparr>) = Fin 900
   \<and> Fin 900 \<noteq> Fin 4 * Fin 400"
  by (simp add: calculateFundingRate_def Let_def Math_pow2_def)

text \<open>
  C6, amended. When \<open>totalDeltaKShorts\<close> is \<open>0\<close> and the other fields the rate reads
  are finite and not zero, doubling \<open>totalDeltaKLongs\<close> multiplies the rate per second
  by exactly \<open>4\<close>.
\<close>

theorem funding_rate_doubling:
  assumes "totalDeltaKShorts r = Fin 0"
    and "nonzero_fin (totalDeltaKLongs r)"
    and "nonzero_fin (effectiveSolReserve r)" and "nonzero_fin (effectiveTokenReserve r)"
    and "nonzero_fin (fundingConstantC r)"
  shows "perSecond (calculateFundingRate (r\<lparr>totalDeltaKLongs := Fin 2 * totalDeltaKLongs r\<rparr>))
       = Fin 4 * perSecond (calculateFundingRate r)"
proof -
  from assms obtain l e t c where
    l: "totalDeltaKLongs r = Fin l" "l \<noteq> 0" and e: "effectiveSolReserve r = Fin e" "e \<noteq> 0" and
    t: "effectiveTokenReserve r = Fin t" "t \<noteq> 0" and c: "fundingConstantC r = Fin c"
    by (metis nonzero_finE)
  show ?thesis
    using l(2) e(2) t(2)
    by (simp add: calculateFundingRate_def Let_def Math_pow2_Fin l e t c assms(1)
        power2_eq_square)
qed

theorem funding_rate_doubling_witness:
  "perSecond (calculateFundingRate
      \<lparr>solReserve = Fin 1, effectiveSolReserve = Fin 2, tokenReserve = Fin 1,
       effectiveTokenReserve = Fin 5, totalDeltaKLongs = Fin 3, totalDeltaKShorts = Fin 0,
       fundingConstantC = Fin 1\<rparr>) = Fin 9
   \<and> perSecond (calculateFundingRate
      \<lparr>solReserve = Fin 1, effectiveSolReserve = Fin 2, tokenReserve = Fin 1,
       effectiveTokenReserve = Fin 5, totalDeltaKLongs = Fin 6, totalDeltaKShorts = Fin 0,
       fundingConstantC = Fin 1\<rparr>) = Fin 4 * Fin 9"
  using funding_rate_doubling [of
     "\<lparr>solReserve = Fin 1, effectiveSolReserve = Fin 2, tokenReserve = Fin 1,
       effectiveTokenReserve = Fin 5, totalDeltaKLongs = Fin 3, totalDeltaKShorts = Fin 0,
       fundingConstantC = Fin 1\<rparr>"]
  by (simp add: nonzero_fin_def calculateFundingRate_def Let_def Math_pow2_def)

text \<open>
  C7. When the short-circuit does not apply, the rate per second is
  \<open>fundingConstantC * (totalDeltaK / k_e)^2 * 100\<close>, the rate per day is \<open>86400\<close> times
  the rate per second and the rate per annum \<open>365\<close> times the rate per day; on a
  snapshot (fields finite and not negative) the rate per second is not negative.
\<close>

theorem funding_rate_formula:
  assumes "totalDeltaKLongs r + totalDeltaKShorts r \<noteq> Fin 0"
    and "effectiveSolReserve r * effectiveTokenReserve r \<noteq> Fin 0"
  shows "perSecond (calculateFundingRate r) =
           fundingConstantC r
             * Math_pow2 ((totalDeltaKLongs r + totalDeltaKShorts r)
                 / (effectiveSolReserve r * effectiveTokenReserve r)) * Fin 100
         \<and> perDay (calculateFundingRate r) = perSecond (calculateFundingRate r) * Fin 86400
         \<and> perAnnum (calculateFundingRate r) = perDay (calculateFundingRate r) * Fin 365
         \<and> (valid_reserves r \<longrightarrow> js_ge (perSecond (calculateFundingRate r)) (Fin 0))"
proof -
  have f: "calculateFundingRate r =
      \<lparr>perSecond = fundingConstantC r
             * Math_pow2 ((totalDeltaKLongs r + totalDeltaKShorts r)
                 / (effectiveSolReserve r * effectiveTokenReserve r)) * Fin 100,
       perDay = fundingConstantC r
             * Math_pow2 ((totalDeltaKLongs r + totalDeltaKShorts r)
                 / (effectiveSolReserve r * effectiveTokenReserve r)) * Fin 100 * Fin 86400,
       perAnnum = fundingConstantC r
             * Math_pow2 ((totalDeltaKLongs r + totalDeltaKShorts r)
                 / (effectiveSolReserve r * effectiveTokenReserve r)) * Fin 100 * Fin 86400
             * Fin 365\<rparr>"
    using assms by (simp add: calculateFundingRate_def Let_def js_seq_zero_iff)
  have nn: "js_ge (perSecond (calculateFundingRate r)) (Fin 0)" if v: "valid_reserves r"
  proof -
    from v obtain c l s e t where
      c: "fundingConstantC r = Fin c" "0 \<le> c" and
      l: "totalDeltaKLongs r = Fin l" and s: "totalDeltaKShorts r = Fin s" and
      e: "effectiveSolReserve r = Fin e" and t: "effectiveTokenReserve r = Fin t"
      unfolding valid_reserves_def by (metis nonneg_finE)
    from assms(2) have k: "e * t \<noteq> 0" by (simp add: e t)
    show ?thesis
      using c(2) k by (simp add: f c l s e t Math_pow2_Fin)
  qed
  show ?thesis using nn by (simp add: f)
qed

theorem funding_rate_formula_witness:
  "calculateFundingRate
      \<lparr>solReserve = Fin 1, effectiveSolReserve = Fin 2, tokenReserve = Fin 1,
       effectiveTokenReserve = Fin 5, totalDeltaKLongs = Fin 3, totalDeltaKShorts = Fin 1,
       fundingConstantC = Fin (1 / 2)\<rparr>
     = \<lparr>perSecond = Fin 8, perDay = Fin 691200, perAnnum = Fin 252288000\<rparr>
   \<and> Fin (1 / 2) * Math_pow2 ((Fin 3 + Fin 1) / (Fin 2 * Fin 5)) * Fin 100 = Fin 8
   \<and> js_ge (Fin 8) (Fin 0)"
  using funding_rate_formula [of
     "\<lparr>solReserve = Fin 1, effectiveSolReserve = Fin 2, tokenReserve = Fin 1,
       effectiveTokenReserve = Fin 5, totalDeltaKLongs = Fin 3, totalDeltaKShorts = Fin 1,
       fundingConstantC = Fin (1 / 2)\<rparr>"]
  by (simp add: valid_reserves_def nonneg_fin_def calculateFundingRate_def Let_def Math_pow2_def)

section \<open>Position profit and loss\<close>

lemma long_legs:
  assumes "isLong pos"
  shows "pnl_legs pos r p =
    ((calculateExpectedOutput r (rawSize pos / Fin (10 ^ 6)) False
        - (rawCollateral pos / Fin (10 ^ 9)) * (leverage pos - Fin 1)) * p,
     (rawCollateral pos / Fin (10 ^ 9)) * p)"
  using assms
  by (simp add: pnl_legs_def Let_def LAMPORTS_PER_SOL_def Math_pow10_def TOKEN_Y_DECIMALS_def)

lemma short_legs:
  assumes "\<not> isLong pos"
  shows "pnl_legs pos r p =
    ((calculateExpectedOutput r (rawSize pos / Fin (10 ^ 9)) True
        - (rawCollateral pos / Fin (10 ^ 6)) * (leverage pos - Fin 1))
       * calculatePoolPrice r * p,
     (rawCollateral pos / Fin (10 ^ 6)) * calculatePoolPrice r * p)"
  using assms
  by (simp add: pnl_legs_def Let_def LAMPORTS_PER_SOL_def Math_pow10_def TOKEN_Y_DECIMALS_def)

text \<open>
  C8. Whenever the computed \<open>collateralUsd\<close> is \<open>0\<close> the result is exactly \<open>0\<close>. That
  is the case for a long position with \<open>rawCollateral = 0\<close> and a finite SOL price, for
  a long position with a finite collateral and a SOL price of \<open>0\<close>, and for a short
  position when one of collateral, effective pool price and SOL price is \<open>0\<close> and
  the other two are finite.
\<close>

theorem pnl_zero_collateral_guard:
  "(pnl_collateralUsd pos r p = Fin 0 \<longrightarrow> calculatePositionPnL pos r p = Fin 0)
   \<and> (isLong pos \<and> rawCollateral pos = Fin 0 \<and> is_finite p
        \<longrightarrow> pnl_collateralUsd pos r p = Fin 0 \<and> calculatePositionPnL pos r p = Fin 0)
   \<and> (isLong pos \<and> is_finite (rawCollateral pos) \<and> p = Fin 0
        \<longrightarrow> pnl_collateralUsd pos r p = Fin 0 \<and> calculatePositionPnL pos r p = Fin 0)
   \<and> (\<not> isLong pos \<and> is_finite (rawCollateral pos) \<and> calculatePoolPrice r = Fin 0
        \<and> is_finite p
        \<longrightarrow> pnl_collateralUsd pos r p = Fin 0 \<and> calculatePositionPnL pos r p = Fin 0)
   \<and> (\<not> isLong pos \<and> rawCollateral pos = Fin 0 \<and> is_finite (calculatePoolPrice r)
        \<and> is_finite p
        \<longrightarrow> pnl_collateralUsd pos r p = Fin 0 \<and> calculatePositionPnL pos r p = Fin 0)
   \<and> (\<not> isLong pos \<and> is_finite (rawCollateral pos) \<and> is_finite (calculatePoolPrice r)
        \<and> p = Fin 0
        \<longrightarrow> pnl_collateralUsd pos r p = Fin 0 \<and> calculatePositionPnL pos r p = Fin 0)"
proof -
  have guard: "calculatePositionPnL pos r p = Fin 0" if "pnl_collateralUsd pos r p = Fin 0"
    using that
    by (cases "pnl_legs pos r p") (simp add: calculatePositionPnL_def pnl_collateralUsd_def)
  have a: "pnl_collateralUsd pos r p = Fin 0"
    if "isLong pos \<and> rawCollateral pos = Fin 0 \<and> is_finite p"
    using that by (cases p) (simp_all add: pnl_collateralUsd_def long_legs)
  have b: "pnl_collateralUsd pos r p = Fin 0"
    if "isLong pos \<and> is_finite (rawCollateral pos) \<and> p = Fin 0"
    using that by (cases "rawCollateral pos") (simp_all add: pnl_collateralUsd_def long_legs)
  have c: "pnl_collateralUsd pos r p = Fin 0"
    if "\<not> isLong pos \<and> is_finite (rawCollateral pos) \<and> calculatePoolPrice r = Fin 0
        \<and> is_finite p"
    using that
    by (cases "rawCollateral pos"; cases p) (simp_all add: pnl_collateralUsd_def short_legs)
  have d: "pnl_collateralUsd pos r p = Fin 0"
    if "\<not> isLong pos \<and> rawCollateral pos = Fin 0 \<and> is_finite (calculatePoolPrice r)
        \<and> is_finite p"
    using that
    by (cases "calculatePoolPrice r"; cases p) (simp_all add: pnl_collateralUsd_def short_legs)
  have e: "pnl_collateralUsd pos r p = Fin 0"
    if "\<not> isLong pos \<and> is_finite (rawCollateral pos) \<and> is_finite (calculatePoolPrice r)
        \<and> p = Fin 0"
    using that
    by (cases "rawCollateral pos"; cases "calculatePoolPrice r")
      (simp_all add: pnl_collateralUsd_def short_legs)
  show ?thesis using guard a b c d e by blast
qed

theorem pnl_zero_collateral_guard_witness:
  "calculatePositionPnL
     \<lparr>isLong = True, rawSize = Fin 5000000, rawCollateral = Fin 0, leverage = Fin 2\<rparr>
     \<lparr>solReserve = Fin 1, effectiveSolReserve = Fin (10 ^ 9), tokenReserve = Fin 1,
      effectiveTokenReserve = Fin 6000000, totalDeltaKLongs = Fin 0, totalDeltaKShorts = Fin 0,
      fundingConstantC = Fin 1\<rparr> (Fin 150) = Fin 0"
  using pnl_zero_collateral_guard [of
     "\<lparr>isLong = True, rawSize = Fin 5000000, rawCollateral = Fin 0, leverage = Fin 2\<rparr>"
     "\<lparr>solReserve = Fin 1, effectiveSolReserve = Fin (10 ^ 9), tokenReserve = Fin 1,
      effectiveTokenReserve = Fin 6000000, totalDeltaKLongs = Fin 0, totalDeltaKShorts = Fin 0,
      fundingConstantC = Fin 1\<rparr>" "Fin 150"]
  by simp



section \<open>Formatting\<close>

lemma decimal_digits_small: "n < 10 \<Longrightarrow> decimal_digits n = [digit_char n]"
  by (simp add: decimal_digits.simps)

lemma decimal_digits_step:
  "10 \<le> n \<Longrightarrow> decimal_digits n = decimal_digits (n div 10) @ [digit_char (n mod 10)]"
  by (subst decimal_digits.simps) simp

lemma decimal_digits_nonempty: "decimal_digits n \<noteq> []"
  by (subst decimal_digits.simps) simp

lemma digit_char_0: "digit_char 0 = CHR ''0''"
  by (simp add: digit_char_def)

lemma fixed2_digits_eq:
  assumes "0 \<le> n"
  shows "fixed2_digits n = show_hundredths n"
proof -
  consider "n < 10" | "10 \<le> n" "n < 100" | "100 \<le> n" by linarith
  then show ?thesis
  proof cases
    case 1
    then have "n div 100 = 0" "n div 10 mod 10 = 0" "n mod 10 = n" using assms by simp_all
    then show ?thesis
      using 1 by (simp add: fixed2_digits_def show_hundredths_def decimal_digits_small
          digit_char_0 Let_def numeral_3_eq_3)
  next
    case 2
    then have d: "n div 10 < 10" "n div 100 = 0" "n div 10 mod 10 = n div 10" by simp_all
    have m: "decimal_digits n = [digit_char (n div 10), digit_char (n mod 10)]"
      using 2 d by (simp add: decimal_digits_step decimal_digits_small)
    show ?thesis
      using 2 d by (simp add: fixed2_digits_def show_hundredths_def m decimal_digits_small
          digit_char_0 Let_def numeral_3_eq_3)
  next
    case 3
    then have t: "10 \<le> n" "10 \<le> n div 10" by simp_all
    have dd: "n div 10 div 10 = n div 100"
      using zdiv_zmult2_eq [of 10 n 10] by simp
    have m: "decimal_digits n =
        decimal_digits (n div 100) @ [digit_char (n div 10 mod 10), digit_char (n mod 10)]"
      using decimal_digits_step [OF t(1)] decimal_digits_step [OF t(2)] by (simp add: dd)
    have len: "0 < length (decimal_digits (n div 100))"
      using decimal_digits_nonempty by simp
    show ?thesis
      using 3 len by (simp add: fixed2_digits_def show_hundredths_def m Let_def)
  qed
qed

lemma half_away_abs: "\<bar>half_away_hundredths q\<bar> = \<lfloor>\<bar>q\<bar> * 100 + 1 / 2\<rfloor>"
proof (cases "q < 0")
  case True
  define h where "h = \<lfloor>- q * 100 + 1 / 2\<rfloor>"
  have "0 \<le> - q * 100 + 1 / 2" using True by simp
  then have h0: "0 \<le> h" unfolding h_def by (simp only: zero_le_floor)
  have "half_away_hundredths q = - h"
    using True by (simp add: half_away_hundredths_def h_def)
  moreover have "\<lfloor>\<bar>q\<bar> * 100 + 1 / 2\<rfloor> = h"
    using True by (simp add: h_def)
  ultimately show ?thesis using h0 by simp
next
  case False
  define h where "h = \<lfloor>q * 100 + 1 / 2\<rfloor>"
  have "0 \<le> q * 100 + 1 / 2" using False by simp
  then have h0: "0 \<le> h" unfolding h_def by (simp only: zero_le_floor)
  have "half_away_hundredths q = h"
    using False by (simp add: half_away_hundredths_def h_def)
  moreover have "\<lfloor>\<bar>q\<bar> * 100 + 1 / 2\<rfloor> = h"
    using False by (simp add: h_def)
  ultimately show ?thesis using h0 by simp
qed

lemma half_away_nearest:
  "\<bar>of_int (half_away_hundredths q) - q * 100\<bar> \<le> 1 / 2
   \<and> (\<bar>of_int (half_away_hundredths q) - q * 100\<bar> = 1 / 2
        \<longrightarrow> \<bar>q * 100\<bar> < \<bar>of_int (half_away_hundredths q)\<bar>)"
proof (cases "q < 0")
  case True
  define t where "t = - q * 100"
  define h where "h = \<lfloor>t + 1 / 2\<rfloor>"
  have t: "0 < t" using True by (simp add: t_def)
  have "of_int h \<le> t + 1 / 2" "t + 1 / 2 < of_int h + 1"
    unfolding h_def by linarith+
  moreover have "half_away_hundredths q = - h" "q * 100 = - t"
    using True by (simp_all add: half_away_hundredths_def h_def t_def)
  ultimately show ?thesis using t by (auto simp add: abs_if)
next
  case False
  define t where "t = q * 100"
  define h where "h = \<lfloor>t + 1 / 2\<rfloor>"
  have t: "0 \<le> t" using False by (simp add: t_def)
  have "of_int h \<le> t + 1 / 2" "t + 1 / 2 < of_int h + 1"
    unfolding h_def by linarith+
  moreover have "half_away_hundredths q = h" "q * 100 = t"
    using False by (simp_all add: half_away_hundredths_def h_def t_def)
  ultimately show ?thesis using t by (auto simp add: abs_if)
qed

lemma toFixed2_Fin:
  assumes "\<bar>q\<bar> < 10 ^ 21"
  shows "toFixed2 sci (Fin q) =
     (if q < 0 then ''-'' else []) @ show_hundredths \<bar>half_away_hundredths q\<bar>"
proof -
  have "0 \<le> \<lfloor>\<bar>q\<bar> * 100 + 1 / 2\<rfloor>" by simp
  from fixed2_digits_eq [OF this] assms show ?thesis
    by (simp add: half_away_abs)
qed

lemma format_bands:
  "formatTokenAmount sci (Fin v) = toFixed2 sci (band_quotient v) @ band_suffix v"
  "formatNumber sci (Fin v) = ''$'' @ formatTokenAmount sci (Fin v)"
  by (simp_all add: formatTokenAmount_def formatNumber_def band_quotient_def band_suffix_def)

lemma bit_length_pos: "0 < n \<Longrightarrow> bit_length n = 1 + bit_length (n div 2)"
  by (subst bit_length.simps) simp

lemma bit_length_nonneg: "0 \<le> bit_length n"
proof (induction n rule: bit_length.induct)
  case (1 n)
  then show ?case by (subst bit_length.simps) simp
qed

lemma bit_length_lower: "0 < n \<Longrightarrow> 2 ^ nat (bit_length n - 1) \<le> n"
proof (induction n rule: bit_length.induct)
  case (1 n)
  then have n: "0 < n" by simp
  show ?case
  proof (cases "n div 2 = 0")
    case True
    then have "bit_length (n div 2) = 0" by (simp add: bit_length.simps)
    then show ?thesis using n by (simp add: bit_length_pos)
  next
    case False
    then have h: "0 < n div 2" using n by (simp add: pos_imp_zdiv_pos_iff)
    then have ih: "2 ^ nat (bit_length (n div 2) - 1) \<le> n div 2" using 1 n by simp
    have "1 \<le> bit_length (n div 2)"
      using bit_length_pos [OF h] bit_length_nonneg [of "n div 2 div 2"] by simp
    then have "nat (bit_length (n div 2)) = Suc (nat (bit_length (n div 2) - 1))" by simp
    then have "(2::int) ^ nat (bit_length (n div 2)) = 2 * 2 ^ nat (bit_length (n div 2) - 1)"
      by simp
    also have "\<dots> \<le> 2 * (n div 2)" using ih by simp
    also have "\<dots> \<le> n" by simp
    finally show ?thesis using n by (simp add: bit_length_pos)
  qed
qed

lemma pow2_pos: "0 < pow2 e"
  by (simp add: pow2_def)

lemma pow2_shift_le: "0 \<le> e \<Longrightarrow> pow2 (e - 52) \<le> 2 ^ nat e"
proof (cases "0 \<le> e - 52")
  case True
  assume "0 \<le> e"
  have "(2::rat) ^ nat (e - 52) \<le> 2 ^ nat e"
    by (rule power_increasing) simp_all
  then show ?thesis using True by (simp add: pow2_def)
next
  case False
  assume "0 \<le> e"
  have "1 / 2 ^ nat (- (e - 52)) \<le> (1::rat)" by simp
  also have "\<dots> \<le> 2 ^ nat e" by simp
  finally show ?thesis using False by (simp add: pow2_def)
qed

lemma round_half_even_bounds:
  "of_int (round_half_even t) \<le> t + 1" "0 \<le> t \<Longrightarrow> 0 \<le> round_half_even t"
proof -
  have f: "of_int \<lfloor>t\<rfloor> \<le> t" by simp
  have c: "round_half_even t = \<lfloor>t\<rfloor> \<or> round_half_even t = \<lfloor>t\<rfloor> + 1"
    by (simp add: round_half_even_def Let_def)
  show "of_int (round_half_even t) \<le> t + 1"
  proof (rule disjE [OF c])
    assume "round_half_even t = \<lfloor>t\<rfloor>"
    then show ?thesis using f by linarith
  next
    assume "round_half_even t = \<lfloor>t\<rfloor> + 1"
    then show ?thesis using f by simp
  qed
  assume "0 \<le> t"
  then have "0 \<le> \<lfloor>t\<rfloor>" by simp
  with c show "0 \<le> round_half_even t" by auto
qed

lemma round64_ge_one:
  assumes "1 \<le> x" and "x \<le> 10 ^ 20"
  shows "\<exists>m. round64 x = Fin m \<and> 0 \<le> m \<and> m < 10 ^ 21"
proof -
  define N where "N = \<lfloor>x\<rfloor>"
  define e where "e = bit_length N - 1"
  define u where "u = pow2 (e - 52)"
  define m where "m = of_int (round_half_even (\<bar>x\<bar> / u)) * u"
  have ax: "\<bar>x\<bar> = x" using assms(1) by simp
  have N: "0 < N" using assms(1) by (simp add: N_def)
  have Nx: "of_int N \<le> x" by (simp add: N_def)
  have e0: "0 \<le> e"
    using bit_length_pos [OF N] bit_length_nonneg [of "N div 2"] by (simp add: e_def)
  have be: "max (binary_exponent \<bar>x\<bar>) (- 1022) = e"
    using assms(1) e0 by (simp add: binary_exponent_def e_def N_def)
  have u0: "0 < u" by (simp add: u_def pow2_pos)
  have "(2::int) ^ nat e \<le> N" using bit_length_lower [OF N] by (simp add: e_def)
  then have "(2::rat) ^ nat e \<le> of_int N"
    by (metis of_int_le_iff of_int_numeral of_int_power)
  then have ux: "u \<le> x" using pow2_shift_le [OF e0] Nx unfolding u_def by linarith
  have "m \<le> (x / u + 1) * u"
    unfolding m_def ax using round_half_even_bounds(1) [of "x / u"] u0
    by (simp add: mult_right_mono)
  also have "\<dots> = x + u" using u0 by (simp add: field_simps)
  finally have mu: "m \<le> 2 * x" using ux by linarith
  have m0: "0 \<le> m"
    unfolding m_def ax using round_half_even_bounds(2) [of "x / u"] u0 assms(1) by simp
  have "2 * x \<le> 2 * 10 ^ 20" using assms(2) by simp
  also have "\<dots> < (10::rat) ^ 21" by simp
  finally have m21: "m < 10 ^ 21" using mu by simp
  have nov: "\<not> 1024 \<le> binary_exponent m"
  proof
    assume o: "1024 \<le> binary_exponent m"
    have m1: "1 \<le> m"
    proof (rule ccontr)
      assume "\<not> 1 \<le> m"
      then have "binary_exponent m \<le> 0"
        using bit_length_nonneg [of "\<lceil>1 / m\<rceil> - 1"] by (simp add: binary_exponent_def)
      with o show False by simp
    qed
    then have fm: "0 < \<lfloor>m\<rfloor>" by simp
    from o m1 have "1024 \<le> bit_length \<lfloor>m\<rfloor> - 1" by (simp add: binary_exponent_def)
    then have "(2::int) ^ 1024 \<le> 2 ^ nat (bit_length \<lfloor>m\<rfloor> - 1)"
      by (intro power_increasing) simp_all
    also have "\<dots> \<le> \<lfloor>m\<rfloor>" by (rule bit_length_lower [OF fm])
    finally have "(2::rat) ^ 1024 \<le> of_int \<lfloor>m\<rfloor>"
      by (metis of_int_le_iff of_int_numeral of_int_power)
    also have "\<dots> \<le> m" by simp
    finally have "(2::rat) ^ 1024 \<le> m" .
    moreover have "(10::rat) ^ 21 \<le> 2 ^ 1024" by simp
    ultimately show False using m21 by linarith
  qed
  have "round64 x = (if x = 0 then Fin 0
      else if 1024 \<le> binary_exponent m then (if 0 < x then PInf else NInf)
      else Fin (if 0 < x then m else - m))"
    unfolding round64_def Let_def be u_def [symmetric] m_def [symmetric] ..
  then have "round64 x = Fin m" using assms(1) nov by simp
  with m0 m21 show ?thesis by blast
qed

lemma band_quotient_finite:
  assumes "- (10 ^ 21) < v" and "v < 10 ^ 29"
  shows "\<exists>q. band_quotient v = Fin q \<and> \<bar>q\<bar> < 10 ^ 21"
proof -
  have scaled: "\<exists>q. fl (Fin v / Fin d) = Fin q \<and> \<bar>q\<bar> < 10 ^ 21"
    if "0 < d" "d \<le> v" "v \<le> d * 10 ^ 20" for d
  proof -
    have "1 \<le> v / d" "v / d \<le> 10 ^ 20" using that by (simp_all add: field_simps)
    from round64_ge_one [OF this] that(1) show ?thesis by auto
  qed
  consider "10 ^ 9 \<le> v" | "v < 10 ^ 9" "10 ^ 6 \<le> v" | "v < 10 ^ 6" "10 ^ 3 \<le> v" | "v < 10 ^ 3"
    by linarith
  then show ?thesis
  proof cases
    case 1
    then show ?thesis using scaled [of "10 ^ 9"] assms(2) by (simp add: band_quotient_def)
  next
    case 2
    then show ?thesis using scaled [of "10 ^ 6"] by (simp add: band_quotient_def)
  next
    case 3
    then show ?thesis using scaled [of "10 ^ 3"] by (simp add: band_quotient_def)
  next
    case 4
    then show ?thesis using assms(1) by (simp add: band_quotient_def abs_if)
  qed
qed

text \<open>
  C10, as the claim states it, fails: the decimal rounding of \<open>1005 / 10^3 = 1.005\<close>
  half away from zero is \<open>1.01\<close>, but the binary64 quotient lies below \<open>1.005\<close> and
  \<^verbatim>\<open>formatNumber(1005)\<close> is \<^verbatim>\<open>$1.00K\<close>.
\<close>

theorem format_decimal_rounding_counterexample:
  "formatNumber (\<lambda>q. []) (Fin 1005) = ''$1.00K''
   \<and> ''$'' @ show_hundredths \<bar>half_away_hundredths (1005 / 10 ^ 3)\<bar> @ ''K'' = ''$1.01K''
   \<and> ''$1.00K'' \<noteq> ''$1.01K''"
  by code_simp

text \<open>
  C10, amended. For a finite value \<open>v\<close> with \<open>-10^21 < v < 10^29\<close> the band is chosen
  by the thresholds \<open>10^9\<close>, \<open>10^6\<close>, \<open>10^3\<close> (suffix B, M, K, else none), the quotient
  \<open>q\<close> of the band is a finite binary64 number (the value itself below \<open>10^3\<close>), and
  the text is the sign of \<open>q\<close>, the two-decimal text of \<open>q\<close> rounded half away from
  zero (nearest hundredth, a tie going to the larger magnitude), and the suffix;
  \<^verbatim>\<open>formatNumber\<close> puts a dollar sign in front. The three examples of the claim hold.
\<close>

theorem format_rounds_binary_quotient:
  assumes "- (10 ^ 21) < v" and "v < 10 ^ 29"
  shows "(\<exists>q. band_quotient v = Fin q \<and> \<bar>q\<bar> < 10 ^ 21
           \<and> formatTokenAmount sci (Fin v) =
               (if q < 0 then ''-'' else []) @ show_hundredths \<bar>half_away_hundredths q\<bar>
                 @ band_suffix v
           \<and> \<bar>of_int (half_away_hundredths q) - q * 100\<bar> \<le> 1 / 2
           \<and> (\<bar>of_int (half_away_hundredths q) - q * 100\<bar> = 1 / 2
                \<longrightarrow> \<bar>q * 100\<bar> < \<bar>of_int (half_away_hundredths q)\<bar>))
       \<and> formatNumber sci (Fin v) = ''$'' @ formatTokenAmount sci (Fin v)
       \<and> formatNumber sci (Fin 1500000) = ''$1.50M''
       \<and> formatNumber sci (Fin 999) = ''$999.00''
       \<and> formatTokenAmount sci (Fin 2500000000) = ''2.50B''"
proof -
  from band_quotient_finite [OF assms] obtain q where
    q: "band_quotient v = Fin q" "\<bar>q\<bar> < 10 ^ 21" by blast
  have "formatTokenAmount sci (Fin v) = toFixed2 sci (Fin q) @ band_suffix v"
    by (simp only: format_bands q(1))
  then have t: "formatTokenAmount sci (Fin v) =
      (if q < 0 then ''-'' else []) @ show_hundredths \<bar>half_away_hundredths q\<bar>
        @ band_suffix v"
    by (simp only: toFixed2_Fin [OF q(2)] append_assoc)
  have e1: "formatNumber sci (Fin 1500000) = ''$1.50M''" by code_simp
  have e2: "formatNumber sci (Fin 999) = ''$999.00''" by code_simp
  have e3: "formatTokenAmount sci (Fin 2500000000) = ''2.50B''" by code_simp
  have near: "\<bar>of_int (half_away_hundredths q) - q * 100\<bar> \<le> 1 / 2"
    using half_away_nearest [of q] by (rule conjunct1)
  have tie: "\<bar>of_int (half_away_hundredths q) - q * 100\<bar> = 1 / 2
        \<longrightarrow> \<bar>q * 100\<bar> < \<bar>of_int (half_away_hundredths q)\<bar>"
    using half_away_nearest [of q] by (rule conjunct2)
  show ?thesis
    by (intro conjI exI [of _ q]) (rule q t near tie format_bands(2) e1 e2 e3)+
qed

theorem format_rounds_binary_quotient_witness:
  "(- (10 ^ 21) < (1234567::rat) \<and> (1234567::rat) < 10 ^ 29)
   \<and> band_quotient 1234567 = Fin (5559995481163911 / 4503599627370496)
   \<and> formatTokenAmount (\<lambda>q. []) (Fin 1234567) = ''1.23M''
   \<and> formatNumber (\<lambda>q. []) (Fin 1234567) = ''$1.23M''"
proof -
  have h: "- (10 ^ 21) < (1234567::rat)" "(1234567::rat) < 10 ^ 29" by simp_all
  have b: "band_quotient 1234567 = Fin (5559995481163911 / 4503599627370496)" by code_simp
  have r: "show_hundredths \<bar>half_away_hundredths (5559995481163911 / 4503599627370496)\<bar>
      = ''1.23''" by code_simp
  have s: "band_suffix 1234567 = ''M''" by code_simp
  from format_rounds_binary_quotient [OF h, of "\<lambda>q. []"] obtain q where
    q: "band_quotient 1234567 = Fin q"
      "formatTokenAmount (\<lambda>q. []) (Fin 1234567) =
         (if q < 0 then ''-'' else []) @ show_hundredths \<bar>half_away_hundredths q\<bar>
           @ band_suffix 1234567"
    and n: "formatNumber (\<lambda>q. []) (Fin 1234567)
         = ''$'' @ formatTokenAmount (\<lambda>q. []) (Fin 1234567)"
    by blast
  from q(1) b have qv: "q = 5559995481163911 / 4503599627370496" by simp
  have t: "formatTokenAmount (\<lambda>q. []) (Fin 1234567) = ''1.23M''"
    unfolding q(2) qv r s by simp
  have n': "formatNumber (\<lambda>q. []) (Fin 1234567) = ''$1.23M''"
    unfolding n t by simp
  show ?thesis
    by (intro conjI) (rule h b t n')+
qed

end
